theory Spec2Isabelle
  imports Main "HOL-Library.Sublist"
begin

section \<open>The MNIST distributed-training example (examples/mnist_ddp.py)\<close>

text \<open>
  The script is glue around calls into argparse, torch, torchvision and msamp. The
  embedding keeps the script's own control flow (branches, loops, the \<open>break\<close>, the
  Python errors its own expressions can raise) and records every call into a library
  as an event of a trace. What a library call returns or whether it raises is not the
  script's business: it is supplied by an environment.
\<close>

subsection \<open>Values\<close>

text \<open>Floats are only passed through (\<open>lr\<close>, \<open>gamma\<close>, the normalisation constants):
  a float is kept as the decimal literal it was written as, mantissa and exponent of ten.\<close>

type_synonym pyfloat = "int \<times> int"

datatype device = Cuda | Cpu

datatype dataset = MNIST_train | MNIST_test

datatype sampler = DistributedSampler dataset bool | SequentialSampler dataset

text \<open>The keyword dictionaries \<open>train_kwargs\<close> and \<open>test_kwargs\<close>, in insertion order.\<close>

datatype kwvalue = KInt int | KBool bool

type_synonym kwargs = "(string \<times> kwvalue) list"

text \<open>\<open>Net(device)\<close> is \<open>Net().to(device)\<close>; the pair that \<open>msamp.initialize\<close> returns
  is opaque and kept symbolic; \<open>AdamW\<close> is built over the parameters of a model.\<close>

datatype model =
    Net device
  | MsampModel model optimizer string
  | DistributedDataParallel model "int list" int
and optimizer =
    AdamW model pyfloat
  | MsampOptimizer model optimizer string

text \<open>One \<open>add_argument\<close> call: the option string, how the value is read, the default.\<close>

datatype argkind = IntArg | FloatArg | StrArg | StoreTrue

datatype argdefault = DInt int | DFloat pyfloat | DStr string | DBool bool | DNone

record argument =
  flag :: string
  kind :: argkind
  default_value :: argdefault

text \<open>The namespace that \<open>parse_args\<close> returns. \<open>local_rank\<close> has no default: it is
  \<open>None\<close> unless the launcher passes it.\<close>

record args =
  batch_size :: int
  test_batch_size :: int
  epochs :: int
  lr :: pyfloat
  gamma :: pyfloat
  no_cuda :: bool
  dry_run :: bool
  seed :: int
  log_interval :: int
  save_model :: bool
  local_rank :: "int option"
  enable_msamp :: bool
  opt_level :: string

text \<open>A data loader is what iterating it yields, a batch being known by its number of
  samples (\<open>len(data)\<close>), together with the length of its dataset.\<close>

record loader =
  batches :: "nat list"
  dataset_len :: nat

text \<open>What the script prints. The float fields of the two progress lines (loss,
  percentage, accuracy) are not computed here: the training line keeps the integers
  they are made of (\<open>batch_idx\<close> and \<open>len(train_loader)\<close>).\<close>

datatype message =
    MsampEnabled string
  | TrainProgress int int nat int nat
  | TestSummary nat

subsection \<open>Library calls\<close>

datatype event =
    ArgumentParser
  | AddArgument argument
  | ParseArgs
  | CudaIsAvailable
  | CudaSetDevice "int option"
  | InitProcessGroup string string
  | ManualSeed int
  | TorchDevice device
  | ToTensor
  | Normalize pyfloat pyfloat
  | Compose
  | MNIST bool bool
  | CudaSynchronize
  | NewDistributedSampler dataset bool
  | NewSequentialSampler dataset
  | NewDataLoader dataset sampler "bool option" kwargs
  | NetInit
  | ModuleTo device
  | Parameters model
  | AdamWInit model pyfloat
  | Print message
  | MsampInitialize model optimizer string
  | DDPInit model "int list" int
  | StepLRInit optimizer int pyfloat
  | SetEpoch int
  | ModelTrain model
  | ModelEval model
  | NoGrad
  | LoaderIter
  | LoaderNext
  | TensorTo device
  | ZeroGrad optimizer
  | Forward model
  | NllLoss string
  | Backward
  | AllReduceGrads optimizer model
  | OptimizerStep optimizer
  | GetRank
  | GetWorldSize
  | Item
  | Argmax
  | ViewAs
  | TensorEq
  | TensorSum
  | SchedulerStep
  | StateDict model
  | TorchSave string

text \<open>An exception is either raised inside a library call (with some code the
  environment chooses) or by one of the script's own expressions.\<close>

datatype exn = Framework nat | ZeroDivisionError | TypeError | UnboundLocalError

text \<open>The environment: for every call, given the calls made so far, whether it raises;
  and the values the queries return.\<close>

record env =
  raises :: "event list \<Rightarrow> event \<Rightarrow> nat option"
  cuda_available :: bool
  rank :: int
  world_size :: int
  has_all_reduce_grads :: "optimizer \<Rightarrow> bool"
  train_batches :: "int \<Rightarrow> nat list"
  test_batches :: "nat list"
  train_dataset_len :: nat
  test_dataset_len :: nat

subsection \<open>Scripts: a trace of calls, and a value or an exception\<close>

type_synonym 'a script = "env \<Rightarrow> event list \<Rightarrow> (exn + 'a) \<times> event list"

definition ret :: "'a \<Rightarrow> 'a script" where
  "ret v = (\<lambda>e tr. (Inr v, tr))"

definition raise_exn :: "exn \<Rightarrow> 'a script" where
  "raise_exn x = (\<lambda>e tr. (Inl x, tr))"

definition asks :: "(env \<Rightarrow> 'a) \<Rightarrow> 'a script" where
  "asks f = (\<lambda>e tr. (Inr (f e), tr))"

definition call :: "event \<Rightarrow> unit script" where
  "call c = (\<lambda>e tr. case raises e tr c of
       None \<Rightarrow> (Inr (), tr @ [c])
     | Some n \<Rightarrow> (Inl (Framework n), tr @ [c]))"

definition bnd :: "'a script \<Rightarrow> ('a \<Rightarrow> 'b script) \<Rightarrow> 'b script" where
  "bnd m f = (\<lambda>e tr. case m e tr of
       (Inl x, tr') \<Rightarrow> (Inl x, tr')
     | (Inr v, tr') \<Rightarrow> f v e tr')"

definition thn :: "unit script \<Rightarrow> 'a script \<Rightarrow> 'a script" where
  "thn m n = bnd m (\<lambda>_. n)"

fun block :: "unit script list \<Rightarrow> unit script" where
  "block [] = ret ()"
| "block (s # ss) = thn s (block ss)"

definition calls :: "event list \<Rightarrow> unit script" where
  "calls cs = block (map call cs)"

definition only_if :: "bool \<Rightarrow> unit script \<Rightarrow> unit script" where
  "only_if b s = (if b then s else ret ())"

subsection \<open>The network (class \<open>Net\<close>)\<close>

datatype layer = Conv2d nat nat nat nat | Dropout pyfloat | Linear nat nat

text \<open>The attributes \<open>__init__\<close> sets, in the order it sets them.\<close>

definition Net_init :: "(string \<times> layer) list" where
  "Net_init =
    [(''conv1'', Conv2d 1 32 3 1),
     (''conv2'', Conv2d 32 64 3 1),
     (''dropout1'', Dropout (25, -2)),
     (''dropout2'', Dropout (5, -1)),
     (''fc1'', Linear 9216 128),
     (''fc2'', Linear 128 10)]"

datatype op = Module string layer | Relu | MaxPool2d nat | Flatten nat | LogSoftmax nat

text \<open>A tensor is opaque: it is known by the operations that produced it from the
  input, oldest first. Reading an attribute that \<open>__init__\<close> did not set fails.\<close>

type_synonym tensor = "op list"

datatype attribute_error = AttributeError string

definition submodule :: "string \<Rightarrow> tensor \<Rightarrow> attribute_error + tensor" where
  "submodule name x = (case map_of Net_init name of
       None \<Rightarrow> Inl (AttributeError name)
     | Some l \<Rightarrow> Inr (x @ [Module name l]))"

definition functional :: "op \<Rightarrow> tensor \<Rightarrow> attribute_error + tensor" where
  "functional f x = Inr (x @ [f])"

fun chain :: "(tensor \<Rightarrow> attribute_error + tensor) list \<Rightarrow> tensor \<Rightarrow> attribute_error + tensor" where
  "chain [] x = Inr x"
| "chain (f # fs) x = (case f x of Inl err \<Rightarrow> Inl err | Inr y \<Rightarrow> chain fs y)"

definition forward :: "tensor \<Rightarrow> attribute_error + tensor" where
  "forward x = chain
     [submodule ''conv1'',
      functional Relu,
      submodule ''conv2'',
      functional Relu,
      functional (MaxPool2d 2),
      submodule ''dropout1'',
      functional (Flatten 1),
      submodule ''fc1'',
      functional Relu,
      submodule ''dropout2'',
      submodule ''fc2'',
      functional (LogSoftmax 1)] x"

fun is_conv :: "layer \<Rightarrow> bool" where
  "is_conv (Conv2d _ _ _ _) = True"
| "is_conv _ = False"

fun is_dropout :: "layer \<Rightarrow> bool" where
  "is_dropout (Dropout _) = True"
| "is_dropout _ = False"

fun is_linear :: "layer \<Rightarrow> bool" where
  "is_linear (Linear _ _) = True"
| "is_linear _ = False"

subsection \<open>The training pass (function \<open>train\<close>)\<close>

definition get_rank :: "int script" where
  "get_rank = thn (call GetRank) (asks rank)"

definition get_world_size :: "int script" where
  "get_world_size = thn (call GetWorldSize) (asks world_size)"

text \<open>The body of the loop, lines 66 to 82. \<open>batch_idx % args.log_interval\<close> raises
  when the interval is zero; otherwise Python's \<open>%\<close> on integers is HOL's \<open>mod\<close>.
  The arguments of \<open>format\<close> are evaluated left to right.\<close>

definition train_iteration ::
  "args \<Rightarrow> model \<Rightarrow> device \<Rightarrow> loader \<Rightarrow> optimizer \<Rightarrow> int \<Rightarrow> int \<Rightarrow> nat \<Rightarrow> unit script" where
  "train_iteration args model device train_loader optimizer epoch batch_idx data =
     block
      [call (TensorTo device),
       call (TensorTo device),
       call (ZeroGrad optimizer),
       call (Forward model),
       call (NllLoss ''mean''),
       call Backward,
       bnd (asks (\<lambda>e. has_all_reduce_grads e optimizer)) (\<lambda>has.
         only_if has (call (AllReduceGrads optimizer model))),
       call (OptimizerStep optimizer),
       bnd get_rank (\<lambda>r.
         only_if (r = 0)
           (if log_interval args = 0 then raise_exn ZeroDivisionError
            else only_if (batch_idx mod log_interval args = 0)
              (bnd get_world_size (\<lambda>ws.
                 block
                  [call Item,
                   call (Print (TrainProgress epoch (ws * batch_idx * int data)
                     (dataset_len train_loader) batch_idx
                     (length (batches train_loader))))]))))]"

text \<open>The \<open>for\<close> loop over \<open>enumerate(train_loader)\<close>: one fetch per batch, one more
  that finds the loader exhausted, and the \<open>break\<close> of line 84.\<close>

fun train_loop ::
  "args \<Rightarrow> model \<Rightarrow> device \<Rightarrow> loader \<Rightarrow> optimizer \<Rightarrow> int \<Rightarrow> int \<Rightarrow> nat list \<Rightarrow> unit script" where
  "train_loop args model device train_loader optimizer epoch batch_idx [] = call LoaderNext"
| "train_loop args model device train_loader optimizer epoch batch_idx (data # rest) =
     block
      [call LoaderNext,
       train_iteration args model device train_loader optimizer epoch batch_idx data,
       if dry_run args then ret ()
       else train_loop args model device train_loader optimizer epoch (batch_idx + 1) rest]"

definition train ::
  "args \<Rightarrow> model \<Rightarrow> device \<Rightarrow> loader \<Rightarrow> optimizer \<Rightarrow> int \<Rightarrow> unit script" where
  "train args model device train_loader optimizer epoch =
     block
      [call (ModelTrain model),
       call LoaderIter,
       train_loop args model device train_loader optimizer epoch 0 (batches train_loader)]"

subsection \<open>The evaluation pass (function \<open>test\<close>)\<close>

text \<open>The running sums \<open>test_loss\<close> and \<open>correct\<close> are made of values the library
  returns and are not tracked; the division by \<open>len(test_loader.dataset)\<close> is.\<close>

fun test_loop :: "model \<Rightarrow> device \<Rightarrow> nat list \<Rightarrow> unit script" where
  "test_loop model device [] = call LoaderNext"
| "test_loop model device (data # rest) =
     block
      [call LoaderNext,
       call (TensorTo device),
       call (TensorTo device),
       call (Forward model),
       call (NllLoss ''sum''),
       call Item,
       call Argmax,
       call ViewAs,
       call TensorEq,
       call TensorSum,
       call Item,
       test_loop model device rest]"

definition test :: "model \<Rightarrow> device \<Rightarrow> loader \<Rightarrow> unit script" where
  "test model device test_loader =
     block
      [call (ModelEval model),
       call NoGrad,
       call LoaderIter,
       test_loop model device (batches test_loader),
       if dataset_len test_loader = 0 then raise_exn ZeroDivisionError
       else call (Print (TestSummary (dataset_len test_loader)))]"

subsection \<open>The script (function \<open>main\<close>)\<close>

definition parser_arguments :: "argument list" where
  "parser_arguments =
    [\<lparr>flag = ''--batch-size'', kind = IntArg, default_value = DInt 64\<rparr>,
     \<lparr>flag = ''--test-batch-size'', kind = IntArg, default_value = DInt 1000\<rparr>,
     \<lparr>flag = ''--epochs'', kind = IntArg, default_value = DInt 4\<rparr>,
     \<lparr>flag = ''--lr'', kind = FloatArg, default_value = DFloat (3, -4)\<rparr>,
     \<lparr>flag = ''--gamma'', kind = FloatArg, default_value = DFloat (7, -1)\<rparr>,
     \<lparr>flag = ''--no-cuda'', kind = StoreTrue, default_value = DBool False\<rparr>,
     \<lparr>flag = ''--dry-run'', kind = StoreTrue, default_value = DBool False\<rparr>,
     \<lparr>flag = ''--seed'', kind = IntArg, default_value = DInt 1\<rparr>,
     \<lparr>flag = ''--log-interval'', kind = IntArg, default_value = DInt 10\<rparr>,
     \<lparr>flag = ''--save-model'', kind = StoreTrue, default_value = DBool False\<rparr>,
     \<lparr>flag = ''--local_rank'', kind = IntArg, default_value = DNone\<rparr>,
     \<lparr>flag = ''--enable-msamp'', kind = StoreTrue, default_value = DBool False\<rparr>,
     \<lparr>flag = ''--opt-level'', kind = StrArg, default_value = DStr ''O1''\<rparr>]"

text \<open>\<open>model.module\<close>: the module a \<open>DistributedDataParallel\<close> wraps. \<open>main\<close> reads it
  from the wrapper it has just built.\<close>

fun module_of :: "model \<Rightarrow> model script" where
  "module_of (DistributedDataParallel m ids out) = ret m"
| "module_of m = raise_exn TypeError"

text \<open>The loop over \<open>range(1, args.epochs + 1)\<close>, lines 194 to 199. The training loader
  yields in epoch \<open>epoch\<close> what the sampler, re-seeded with \<open>epoch\<close>, gives it.\<close>

fun epoch_loop :: "args \<Rightarrow> model \<Rightarrow> device \<Rightarrow> optimizer \<Rightarrow> int list \<Rightarrow> unit script" where
  "epoch_loop args model device optimizer [] = ret ()"
| "epoch_loop args model device optimizer (epoch # rest) =
     block
      [call (SetEpoch epoch),
       bnd (asks (\<lambda>e. \<lparr>batches = train_batches e epoch, dataset_len = train_dataset_len e\<rparr>))
         (\<lambda>train_loader. train args model device train_loader optimizer epoch),
       bnd get_rank (\<lambda>r.
         only_if (r = 0)
           (bnd (module_of model) (\<lambda>m.
            bnd (asks (\<lambda>e. \<lparr>batches = test_batches e, dataset_len = test_dataset_len e\<rparr>))
              (\<lambda>test_loader. test m device test_loader)))),
       call SchedulerStep,
       epoch_loop args model device optimizer rest]"

text \<open>\<open>main\<close> is one function of some ninety lines; it is given here in the order of
  its lines, cut into the pieces below. \<open>args\<close> is what \<open>parse_args\<close> returned.\<close>

text \<open>Lines 118 to 145.\<close>

definition parse_arguments :: "unit script" where
  "parse_arguments =
     block
      [call ArgumentParser,
       calls (map AddArgument parser_arguments),
       call ParseArgs]"

text \<open>Line 146: \<open>not args.no_cuda and torch.cuda.is_available()\<close>; \<open>and\<close> does not
  evaluate its right operand when the left one is false.\<close>

definition use_cuda_of :: "args \<Rightarrow> bool script" where
  "use_cuda_of args =
     (if no_cuda args then ret False else thn (call CudaIsAvailable) (asks cuda_available))"

text \<open>Lines 165 to 175, up to the first use of \<open>dataset1\<close>. It is assigned on two of the
  three outcomes of comparing \<open>local_rank\<close> with zero, and comparing \<open>None\<close> with zero
  with \<open>>\<close> raises. The result is the local rank and \<open>dataset1\<close>.\<close>

definition load_datasets :: "args \<Rightarrow> (int \<times> dataset) script" where
  "load_datasets args =
     thn (calls [ToTensor, Normalize (1307, -4) (3081, -4), Compose])
    (bnd (if local_rank args = Some 0
          then thn (call (MNIST True True)) (ret (Some MNIST_train))
          else ret None) (\<lambda>downloaded.
     thn (call CudaSynchronize)
    (bnd (case local_rank args of
            None \<Rightarrow> raise_exn TypeError
          | Some r \<Rightarrow>
              if r > 0 then thn (call (MNIST True False)) (ret (r, Some MNIST_train))
              else ret (r, downloaded)) (\<lambda>(r, bound).
     thn (call (MNIST False False))
         (case bound of
            None \<Rightarrow> raise_exn UnboundLocalError
          | Some dataset1 \<Rightarrow> ret (r, dataset1))))))"

text \<open>Lines 175 to 183.\<close>

definition build_loaders_and_model :: "args \<Rightarrow> bool \<Rightarrow> device \<Rightarrow> dataset \<Rightarrow> unit script" where
  "build_loaders_and_model args use_cuda device dataset1 =
     (let cuda_kwargs =
            (if use_cuda then [(''num_workers'', KInt 1), (''pin_memory'', KBool True)] else []);
          train_kwargs = (''batch_size'', KInt (batch_size args)) # cuda_kwargs;
          test_kwargs = (''batch_size'', KInt (test_batch_size args)) # cuda_kwargs
      in calls
          [NewDistributedSampler dataset1 True,
           NewSequentialSampler MNIST_test,
           NewDataLoader dataset1 (DistributedSampler dataset1 True) (Some False) train_kwargs,
           NewDataLoader MNIST_test (SequentialSampler MNIST_test) None test_kwargs,
           NetInit,
           ModuleTo device,
           Parameters (Net device),
           AdamWInit (Net device) (lr args)])"

text \<open>Lines 185 to 187: the model and the optimizer that go on.\<close>

definition initialize_msamp :: "args \<Rightarrow> model \<Rightarrow> optimizer \<Rightarrow> (model \<times> optimizer) script" where
  "initialize_msamp args model optimizer =
     (if enable_msamp args
      then thn (calls
                 [Print (MsampEnabled (opt_level args)),
                  MsampInitialize model optimizer (opt_level args)])
               (ret (MsampModel model optimizer (opt_level args),
                     MsampOptimizer model optimizer (opt_level args)))
      else ret (model, optimizer))"

text \<open>Lines 201 to 203.\<close>

definition save_checkpoint :: "args \<Rightarrow> model \<Rightarrow> unit script" where
  "save_checkpoint args model =
     only_if (save_model args)
       (bnd get_rank (\<lambda>r.
          only_if (r = 0) (calls [StateDict model, TorchSave ''mnist_cnn.pt''])))"

definition main :: "args \<Rightarrow> unit script" where
  "main args =
     thn parse_arguments
    (bnd (use_cuda_of args) (\<lambda>use_cuda.
     thn (calls
           [CudaSetDevice (local_rank args),
            InitProcessGroup ''nccl'' ''env://'',
            ManualSeed (seed args),
            TorchDevice (if use_cuda then Cuda else Cpu)])
    (bnd (load_datasets args) (\<lambda>(r, dataset1).
     thn (build_loaders_and_model args use_cuda (if use_cuda then Cuda else Cpu) dataset1)
    (bnd (initialize_msamp args (Net (if use_cuda then Cuda else Cpu))
           (AdamW (Net (if use_cuda then Cuda else Cpu)) (lr args))) (\<lambda>(wrapped, optimizer).
     thn (calls
           [DDPInit wrapped [r] r,
            StepLRInit optimizer 1 (gamma args)])
    (thn (epoch_loop args (DistributedDataParallel wrapped [r] r)
           (if use_cuda then Cuda else Cpu) optimizer [1..epochs args])
         (save_checkpoint args (DistributedDataParallel wrapped [r] r)))))))))"

subsection \<open>Runs in which no library call raises\<close>

text \<open>\<open>quiet e\<close> is the environment \<open>e\<close> with every library call succeeding.
  \<open>cut e tr cs\<close> makes the calls \<open>cs\<close> after \<open>tr\<close> in \<open>e\<close> and stops at the first one
  that raises; \<open>replay\<close> is a run that makes the calls \<open>full\<close> and ends with \<open>r\<close> unless a
  call raises. A script is regular when, whatever the environment, its run is the replay
  of its quiet run, which itself does not depend on the calls made before it and does
  not end with a library exception.\<close>

definition quiet :: "env \<Rightarrow> env" where
  "quiet e = e\<lparr>raises := (\<lambda>_ _. None)\<rparr>"

fun cut :: "env \<Rightarrow> event list \<Rightarrow> event list \<Rightarrow> exn option \<times> event list" where
  "cut e tr [] = (None, tr)"
| "cut e tr (c # cs) = (case raises e tr c of
       None \<Rightarrow> cut e (tr @ [c]) cs
     | Some n \<Rightarrow> (Some (Framework n), tr @ [c]))"

definition replay ::
  "env \<Rightarrow> event list \<Rightarrow> (exn + 'a) \<Rightarrow> event list \<Rightarrow> (exn + 'a) \<times> event list" where
  "replay e tr r full = (case cut e tr full of
       (None, tr') \<Rightarrow> (r, tr')
     | (Some x, tr') \<Rightarrow> (Inl x, tr'))"

fun own_result :: "exn + 'a \<Rightarrow> bool" where
  "own_result (Inl (Framework n)) = False"
| "own_result r = True"

definition regular :: "'a script \<Rightarrow> bool" where
  "regular m \<longleftrightarrow>
     (\<forall>e. \<exists>r full. own_result r \<and>
        (\<forall>tr. m (quiet e) tr = (r, tr @ full) \<and> m e tr = replay e tr r full))"

text \<open>The calls and the outcome of the quiet run of a script.\<close>

definition events_of :: "'a script \<Rightarrow> env \<Rightarrow> event list" where
  "events_of m e = snd (m (quiet e) [])"

definition outcome_of :: "'a script \<Rightarrow> env \<Rightarrow> exn + 'a" where
  "outcome_of m e = fst (m (quiet e) [])"

definition iteration_calls :: "env \<Rightarrow> model \<Rightarrow> optimizer \<Rightarrow> event list" where
  "iteration_calls e model optimizer =
     [ZeroGrad optimizer, Forward model, NllLoss ''mean'', Backward]
     @ (if has_all_reduce_grads e optimizer then [AllReduceGrads optimizer model] else [])
     @ [OptimizerStep optimizer]"

fun py_enumerate :: "int \<Rightarrow> 'a list \<Rightarrow> (int \<times> 'a) list" where
  "py_enumerate i [] = []"
| "py_enumerate i (x # xs) = (i, x) # py_enumerate (i + 1) xs"

definition processed :: "args \<Rightarrow> nat list \<Rightarrow> nat list" where
  "processed args bs = (if dry_run args then take 1 bs else bs)"

definition follows :: "'a script \<Rightarrow> env \<Rightarrow> event list \<Rightarrow> bool" where
  "follows m e plan \<longleftrightarrow>
     prefix (events_of m e) plan
     \<and> (case outcome_of m e of Inl x \<Rightarrow> True | Inr v \<Rightarrow> events_of m e = plan)"

definition train_loop_plan ::
  "args \<Rightarrow> model \<Rightarrow> device \<Rightarrow> loader \<Rightarrow> optimizer \<Rightarrow> int \<Rightarrow> int \<Rightarrow> nat list \<Rightarrow> env \<Rightarrow> event list" where
  "train_loop_plan args model device train_loader optimizer epoch batch_idx bs e =
     concat (map (\<lambda>(i, data). LoaderNext #
         events_of (train_iteration args model device train_loader optimizer epoch i data) e)
       (py_enumerate batch_idx (processed args bs)))
     @ (if dry_run args \<and> bs \<noteq> [] then [] else [LoaderNext])"

fun is_iteration_call :: "event \<Rightarrow> bool" where
  "is_iteration_call (ZeroGrad _) = True"
| "is_iteration_call (Forward _) = True"
| "is_iteration_call (NllLoss _) = True"
| "is_iteration_call Backward = True"
| "is_iteration_call (AllReduceGrads _ _) = True"
| "is_iteration_call (OptimizerStep _) = True"
| "is_iteration_call _ = False"

definition is_loop_call :: "event \<Rightarrow> bool" where
  "is_loop_call c = (c = LoaderNext \<or> is_iteration_call c)"

definition train_plan ::
  "args \<Rightarrow> model \<Rightarrow> device \<Rightarrow> loader \<Rightarrow> optimizer \<Rightarrow> int \<Rightarrow> env \<Rightarrow> event list" where
  "train_plan args model device train_loader optimizer epoch e =
     ModelTrain model # LoaderIter #
       train_loop_plan args model device train_loader optimizer epoch 0 (batches train_loader) e"

definition test_batch_calls :: "model \<Rightarrow> device \<Rightarrow> event list" where
  "test_batch_calls model device =
     [LoaderNext, TensorTo device, TensorTo device, Forward model, NllLoss ''sum'', Item,
      Argmax, ViewAs, TensorEq, TensorSum, Item]"

definition test_plan :: "model \<Rightarrow> device \<Rightarrow> loader \<Rightarrow> event list" where
  "test_plan model device test_loader =
     [ModelEval model, NoGrad, LoaderIter]
     @ concat (replicate (length (batches test_loader)) (test_batch_calls model device))
     @ [LoaderNext, Print (TestSummary (dataset_len test_loader))]"

definition train_loader_of :: "env \<Rightarrow> int \<Rightarrow> loader" where
  "train_loader_of e epoch = \<lparr>batches = train_batches e epoch, dataset_len = train_dataset_len e\<rparr>"

definition test_loader_of :: "env \<Rightarrow> loader" where
  "test_loader_of e = \<lparr>batches = test_batches e, dataset_len = test_dataset_len e\<rparr>"

definition epoch_plan ::
  "args \<Rightarrow> model \<Rightarrow> model \<Rightarrow> device \<Rightarrow> optimizer \<Rightarrow> env \<Rightarrow> int \<Rightarrow> event list" where
  "epoch_plan args model inner device optimizer e epoch =
     SetEpoch epoch # train_plan args model device (train_loader_of e epoch) optimizer epoch e
     @ GetRank # (if rank e = 0 then test_plan inner device (test_loader_of e) else [])
     @ [SchedulerStep]"

definition example_args :: args where
  "example_args =
     \<lparr>batch_size = 64, test_batch_size = 1000, epochs = 2, lr = (3, -4), gamma = (7, -1),
      no_cuda = False, dry_run = False, seed = 1, log_interval = 10, save_model = True,
      local_rank = Some 0, enable_msamp = True, opt_level = ''O1''\<rparr>"

fun example_has_all_reduce_grads :: "optimizer \<Rightarrow> bool" where
  "example_has_all_reduce_grads (MsampOptimizer _ _ _) = True"
| "example_has_all_reduce_grads (AdamW _ _) = False"

definition example_env :: env where
  "example_env =
     \<lparr>raises = (\<lambda>_ _. None), cuda_available = True, rank = 0, world_size = 2,
      has_all_reduce_grads = example_has_all_reduce_grads,
      train_batches = (\<lambda>_. [64, 32]), test_batches = [1000],
      train_dataset_len = 192, test_dataset_len = 1000\<rparr>"

definition example_model :: model where
  "example_model = DistributedDataParallel (Net Cuda) [0] 0"

definition example_optimizer :: optimizer where
  "example_optimizer = AdamW (Net Cuda) (3, -4)"

definition example_loader :: loader where
  "example_loader = \<lparr>batches = [64, 32], dataset_len = 192\<rparr>"




definition device_of :: "args \<Rightarrow> env \<Rightarrow> device" where
  "device_of args e = (if \<not> no_cuda args \<and> cuda_available e then Cuda else Cpu)"

definition plain_optimizer :: "args \<Rightarrow> env \<Rightarrow> optimizer" where
  "plain_optimizer args e = AdamW (Net (device_of args e)) (lr args)"

definition model_of :: "args \<Rightarrow> env \<Rightarrow> model" where
  "model_of args e =
     (if enable_msamp args
      then MsampModel (Net (device_of args e)) (plain_optimizer args e) (opt_level args)
      else Net (device_of args e))"

definition optimizer_of :: "args \<Rightarrow> env \<Rightarrow> optimizer" where
  "optimizer_of args e =
     (if enable_msamp args
      then MsampOptimizer (Net (device_of args e)) (plain_optimizer args e) (opt_level args)
      else plain_optimizer args e)"

definition ddp_of :: "args \<Rightarrow> env \<Rightarrow> int \<Rightarrow> model" where
  "ddp_of args e r = DistributedDataParallel (model_of args e) [r] r"

definition setup_plan :: "args \<Rightarrow> env \<Rightarrow> event list" where
  "setup_plan args e =
     ArgumentParser # map AddArgument parser_arguments
     @ [ParseArgs]
     @ (if no_cuda args then [] else [CudaIsAvailable])
     @ [CudaSetDevice (local_rank args), InitProcessGroup ''nccl'' ''env://'',
        ManualSeed (seed args), TorchDevice (device_of args e)]"

definition datasets_plan :: "args \<Rightarrow> event list" where
  "datasets_plan args =
     [ToTensor, Normalize (1307, -4) (3081, -4), Compose]
     @ (if local_rank args = Some 0 then [MNIST True True] else [])
     @ [CudaSynchronize]
     @ (case local_rank args of
          None \<Rightarrow> []
        | Some r \<Rightarrow> (if r > 0 then [MNIST True False] else []) @ [MNIST False False])"

definition msamp_plan :: "args \<Rightarrow> env \<Rightarrow> event list" where
  "msamp_plan args e =
     (if enable_msamp args
      then [Print (MsampEnabled (opt_level args)),
            MsampInitialize (Net (device_of args e)) (plain_optimizer args e) (opt_level args)]
      else [])"

definition save_plan :: "args \<Rightarrow> env \<Rightarrow> int \<Rightarrow> event list" where
  "save_plan args e r =
     (if save_model args
      then GetRank # (if rank e = 0 then [StateDict (ddp_of args e r), TorchSave ''mnist_cnn.pt''] else [])
      else [])"

definition epochs_plan :: "args \<Rightarrow> env \<Rightarrow> int \<Rightarrow> event list" where
  "epochs_plan args e r =
     concat (map (epoch_plan args (ddp_of args e r) (model_of args e) (device_of args e)
       (optimizer_of args e) e) [1..epochs args])"

definition main_plan :: "args \<Rightarrow> env \<Rightarrow> event list" where
  "main_plan args e =
     setup_plan args e @ datasets_plan args
     @ (case local_rank args of
          None \<Rightarrow> []
        | Some r \<Rightarrow>
            if r < 0 then []
            else events_of (build_loaders_and_model args (\<not> no_cuda args \<and> cuda_available e)
                   (device_of args e) MNIST_train) e
              @ msamp_plan args e
              @ [DDPInit (model_of args e) [r] r, StepLRInit (optimizer_of args e) 1 (gamma args)]
              @ epochs_plan args e r
              @ save_plan args e r)"

definition main_tail :: "args \<Rightarrow> env \<Rightarrow> int \<Rightarrow> unit script" where
  "main_tail args e r =
     thn (epoch_loop args (ddp_of args e r) (device_of args e) (optimizer_of args e) [1..epochs args])
         (save_checkpoint args (ddp_of args e r))"




fun is_torch_save :: "event \<Rightarrow> bool" where
  "is_torch_save (TorchSave _) = True"
| "is_torch_save _ = False"

fun is_pass_call :: "event \<Rightarrow> bool" where
  "is_pass_call (ModelTrain _) = True"
| "is_pass_call (ModelEval _) = True"
| "is_pass_call NoGrad = True"
| "is_pass_call LoaderIter = True"
| "is_pass_call LoaderNext = True"
| "is_pass_call (TensorTo _) = True"
| "is_pass_call (ZeroGrad _) = True"
| "is_pass_call (Forward _) = True"
| "is_pass_call (NllLoss _) = True"
| "is_pass_call Backward = True"
| "is_pass_call (AllReduceGrads _ _) = True"
| "is_pass_call (OptimizerStep _) = True"
| "is_pass_call GetRank = True"
| "is_pass_call GetWorldSize = True"
| "is_pass_call Item = True"
| "is_pass_call Argmax = True"
| "is_pass_call ViewAs = True"
| "is_pass_call TensorEq = True"
| "is_pass_call TensorSum = True"
| "is_pass_call (Print (TrainProgress _ _ _ _ _)) = True"
| "is_pass_call (Print (TestSummary _)) = True"
| "is_pass_call _ = False"

(*DEFS*)

section \<open>Properties\<close>

subsection \<open>Every script is regular\<close>

lemma quiet_quiet [simp]: "quiet (quiet e) = quiet e"
  by (simp add: quiet_def)

lemma raises_quiet [simp]: "raises (quiet e) tr c = None"
  by (simp add: quiet_def)

lemma cut_append:
  "cut e tr (a @ b) = (case cut e tr a of
       (None, tr') \<Rightarrow> cut e tr' b
     | (Some x, tr') \<Rightarrow> (Some x, tr'))"
  by (induction a arbitrary: tr) (auto split: option.splits)

lemma cut_None: "cut e tr a = (None, tr') \<Longrightarrow> tr' = tr @ a"
proof (induction a arbitrary: tr)
  case Nil
  then show ?case by simp
next
  case (Cons c cs)
  then have "cut e (tr @ [c]) cs = (None, tr')"
    by (simp split: option.splits)
  then have "tr' = (tr @ [c]) @ cs" by (rule Cons.IH)
  then show ?case by simp
qed

lemma cut_quiet [simp]: "cut (quiet e) tr a = (None, tr @ a)"
  by (induction a arbitrary: tr) auto

lemma regularI:
  "(\<And>e. \<exists>r full. own_result r \<and> (\<forall>tr. m (quiet e) tr = (r, tr @ full) \<and> m e tr = replay e tr r full)) \<Longrightarrow> regular m"
  by (simp add: regular_def)

lemma regularD:
  "regular m \<Longrightarrow>
     \<exists>r full. own_result r \<and> (\<forall>tr. m (quiet e) tr = (r, tr @ full)) \<and> (\<forall>tr. m e tr = replay e tr r full)"
  unfolding regular_def by blast

lemma regular_ret [simp]: "regular (ret v)"
  by (rule regularI, rule exI [of _ "Inr v"], rule exI [of _ "[]"]) (simp add: ret_def replay_def)

lemma regular_raise_exn [simp]: "own_result (Inl x :: exn + 'a) \<Longrightarrow> regular (raise_exn x :: 'a script)"
  by (rule regularI, rule exI [of _ "Inl x"], rule exI [of _ "[]"]) (simp add: raise_exn_def replay_def)

lemma regular_asks: "(\<And>e. f (quiet e) = f e) \<Longrightarrow> regular (asks f)"
  by (rule regularI, rule_tac x = "Inr (f e)" in exI, rule exI [of _ "[]"]) (simp add: asks_def replay_def)

lemma regular_call [simp]: "regular (call c)"
  by (rule regularI, rule exI [of _ "Inr ()"], rule exI [of _ "[c]"])
     (simp add: call_def replay_def split: option.splits)

lemma regular_bnd:
  assumes m: "regular m" and f: "\<And>v. regular (f v)"
  shows "regular (bnd m f)"
proof (rule regularI)
  fix e
  from regularD [OF m, of e] obtain r full where
    o: "own_result r" and
    q: "\<And>tr. m (quiet e) tr = (r, tr @ full)" and a: "\<And>tr. m e tr = replay e tr r full"
    by blast
  show "\<exists>r' full'. own_result r' \<and> (\<forall>tr. bnd m f (quiet e) tr = (r', tr @ full') \<and> bnd m f e tr = replay e tr r' full')"
  proof (cases r)
    case (Inl x)
    have "\<forall>tr. bnd m f (quiet e) tr = (Inl x, tr @ full) \<and> bnd m f e tr = replay e tr (Inl x) full"
      using q a Inl by (auto simp: bnd_def replay_def split: prod.splits option.splits)
    moreover have "own_result (Inl x :: exn + 'b)"
      using o Inl by (cases x) auto
    ultimately show ?thesis by blast
  next
    case (Inr v)
    from regularD [OF f, of v e] obtain r2 full2 where
      o2: "own_result r2" and
      q2: "\<And>tr. f v (quiet e) tr = (r2, tr @ full2)" and a2: "\<And>tr. f v e tr = replay e tr r2 full2"
      by blast
    have "bnd m f (quiet e) tr = (r2, tr @ full @ full2) \<and> bnd m f e tr = replay e tr r2 (full @ full2)" for tr
    proof
      show "bnd m f (quiet e) tr = (r2, tr @ full @ full2)"
        using q q2 Inr by (simp add: bnd_def)
      show "bnd m f e tr = replay e tr r2 (full @ full2)"
      proof (cases "cut e tr full")
        case (Pair o1 tr1)
        show ?thesis
        proof (cases o1)
          case None
          with Pair have "tr1 = tr @ full" by (simp add: cut_None)
          with Pair None show ?thesis
            using a a2 Inr by (simp add: bnd_def replay_def cut_append)
        next
          case (Some y)
          with Pair show ?thesis
            using a Inr by (simp add: bnd_def replay_def cut_append)
        qed
      qed
    qed
    with o2 show ?thesis by blast
  qed
qed

lemma regular_thn: "regular m \<Longrightarrow> regular n \<Longrightarrow> regular (thn m n)"
  by (simp add: thn_def regular_bnd)

lemma regular_block: "(\<And>s. s \<in> set ss \<Longrightarrow> regular s) \<Longrightarrow> regular (block ss)"
  by (induction ss) (auto intro: regular_thn)

lemma regular_calls [simp]: "regular (calls cs)"
  by (auto simp: calls_def intro!: regular_block)

lemma regular_only_if: "regular s \<Longrightarrow> regular (only_if b s)"
  by (simp add: only_if_def)

lemma regular_get_rank [simp]: "regular get_rank"
  by (simp add: get_rank_def regular_thn regular_asks quiet_def)

lemma regular_get_world_size [simp]: "regular get_world_size"
  by (simp add: get_world_size_def regular_thn regular_asks quiet_def)

lemma regular_train_iteration [simp]:
  "regular (train_iteration args model device train_loader optimizer epoch batch_idx data)"
  unfolding train_iteration_def
  by (auto intro!: regular_thn regular_bnd regular_only_if regular_asks simp: quiet_def)

lemma regular_train_loop [simp]:
  "regular (train_loop args model device train_loader optimizer epoch batch_idx bs)"
  by (induction bs arbitrary: batch_idx) (auto intro!: regular_thn)

lemma regular_train [simp]: "regular (train args model device train_loader optimizer epoch)"
  unfolding train_def by (auto intro!: regular_thn)

lemma regular_test_loop [simp]: "regular (test_loop model device bs)"
  by (induction bs) (auto intro!: regular_thn)

lemma regular_test [simp]: "regular (test model device test_loader)"
  unfolding test_def by (auto intro!: regular_thn)

lemma regular_module_of [simp]: "regular (module_of m)"
  by (cases m) auto

lemma regular_epoch_loop [simp]: "regular (epoch_loop args model device optimizer es)"
  by (induction es) (auto intro!: regular_thn regular_bnd regular_only_if regular_asks simp: quiet_def)

lemma regular_parse_arguments [simp]: "regular parse_arguments"
  unfolding parse_arguments_def by (auto intro!: regular_thn)

lemma regular_use_cuda_of [simp]: "regular (use_cuda_of args)"
  unfolding use_cuda_of_def by (auto intro!: regular_thn regular_asks simp: quiet_def)

lemma regular_load_datasets [simp]: "regular (load_datasets args)"
  unfolding load_datasets_def
  by (auto intro!: regular_thn regular_bnd split: option.splits)

lemma regular_build_loaders_and_model [simp]:
  "regular (build_loaders_and_model args use_cuda device dataset1)"
  unfolding build_loaders_and_model_def by (simp add: Let_def)

lemma regular_initialize_msamp [simp]: "regular (initialize_msamp args m opt)"
  unfolding initialize_msamp_def by (auto intro!: regular_thn)

lemma regular_save_checkpoint [simp]: "regular (save_checkpoint args m)"
  unfolding save_checkpoint_def by (auto intro!: regular_only_if regular_bnd)

lemma regular_main: "regular (main args)"
  unfolding main_def
  by (auto intro!: regular_thn regular_bnd)

subsection \<open>Quiet runs and the runs they stand for\<close>

lemma regular_quiet: "regular m \<Longrightarrow> m (quiet e) tr = (outcome_of m e, tr @ events_of m e)"
  using regularD [of m e] by (auto simp: events_of_def outcome_of_def)


lemma regular_run: "regular m \<Longrightarrow> m e tr = replay e tr (outcome_of m e) (events_of m e)"
  using regularD [of m e] by (auto simp: events_of_def outcome_of_def)

lemma rank_quiet [simp]: "rank (quiet e) = rank e"
  and world_size_quiet [simp]: "world_size (quiet e) = world_size e"
  and cuda_available_quiet [simp]: "cuda_available (quiet e) = cuda_available e"
  and has_all_reduce_grads_quiet [simp]: "has_all_reduce_grads (quiet e) = has_all_reduce_grads e"
  and train_batches_quiet [simp]: "train_batches (quiet e) = train_batches e"
  and test_batches_quiet [simp]: "test_batches (quiet e) = test_batches e"
  and train_dataset_len_quiet [simp]: "train_dataset_len (quiet e) = train_dataset_len e"
  and test_dataset_len_quiet [simp]: "test_dataset_len (quiet e) = test_dataset_len e"
  by (simp_all add: quiet_def)

lemma events_of_ret [simp]: "events_of (ret v) e = []"
  and outcome_of_ret [simp]: "outcome_of (ret v) e = Inr v"
  and events_of_raise_exn [simp]: "events_of (raise_exn x) e = []"
  and outcome_of_raise_exn [simp]: "outcome_of (raise_exn x) e = Inl x"
  and events_of_asks [simp]: "events_of (asks f) e = []"
  and outcome_of_asks [simp]: "outcome_of (asks f) e = Inr (f (quiet e))"
  and events_of_call [simp]: "events_of (call c) e = [c]"
  and outcome_of_call [simp]: "outcome_of (call c) e = Inr ()"
  by (simp_all add: events_of_def outcome_of_def ret_def raise_exn_def asks_def call_def)

lemma quiet_bnd:
  assumes "\<And>v. regular (f v)"
  shows "bnd m f (quiet e) [] =
     (case outcome_of m e of
        Inl x \<Rightarrow> (Inl x, events_of m e)
      | Inr v \<Rightarrow> (outcome_of (f v) e, events_of m e @ events_of (f v) e))"
proof -
  obtain r1 t1 where m: "m (quiet e) [] = (r1, t1)" by (cases "m (quiet e) []")
  then have o: "outcome_of m e = r1" and t: "events_of m e = t1"
    by (simp_all add: outcome_of_def events_of_def)
  show ?thesis
  proof (cases r1)
    case (Inl x)
    with m show ?thesis unfolding o t by (simp add: bnd_def)
  next
    case (Inr v)
    have "f v (quiet e) t1 = (outcome_of (f v) e, t1 @ events_of (f v) e)"
      using assms by (rule regular_quiet)
    with m Inr show ?thesis unfolding o t by (simp add: bnd_def)
  qed
qed

lemma events_of_bnd:
  "(\<And>v. regular (f v)) \<Longrightarrow> events_of (bnd m f) e =
     (case outcome_of m e of Inl x \<Rightarrow> events_of m e | Inr v \<Rightarrow> events_of m e @ events_of (f v) e)"
  unfolding events_of_def [of "bnd m f"] by (simp add: quiet_bnd split: sum.splits)

lemma outcome_of_bnd:
  "(\<And>v. regular (f v)) \<Longrightarrow> outcome_of (bnd m f) e =
     (case outcome_of m e of Inl x \<Rightarrow> Inl x | Inr v \<Rightarrow> outcome_of (f v) e)"
  unfolding outcome_of_def [of "bnd m f"] by (simp add: quiet_bnd split: sum.splits)

lemma events_of_thn:
  "regular n \<Longrightarrow> events_of (thn m n) e =
     (case outcome_of m e of Inl x \<Rightarrow> events_of m e | Inr v \<Rightarrow> events_of m e @ events_of n e)"
  by (simp add: thn_def events_of_bnd)

lemma outcome_of_thn:
  "regular n \<Longrightarrow> outcome_of (thn m n) e =
     (case outcome_of m e of Inl x \<Rightarrow> Inl x | Inr v \<Rightarrow> outcome_of n e)"
  by (simp add: thn_def outcome_of_bnd)

lemma events_of_calls [simp]: "events_of (calls cs) e = cs"
  and outcome_of_calls [simp]: "outcome_of (calls cs) e = Inr ()"
proof -
  have r: "regular (block (map call xs))" for xs
    by (rule regular_block) auto
  show "events_of (calls cs) e = cs"
    by (induction cs) (simp_all add: calls_def events_of_thn r)
  show "outcome_of (calls cs) e = Inr ()"
    by (induction cs) (simp_all add: calls_def outcome_of_thn r)
qed

lemma cut_prefix: "\<exists>ext. snd (cut e tr cs) = tr @ ext \<and> prefix ext cs"
proof (induction cs arbitrary: tr)
  case Nil
  show ?case by simp
next
  case (Cons c cs)
  show ?case
  proof (cases "raises e tr c")
    case None
    from Cons [of "tr @ [c]"] obtain ext where
      "snd (cut e (tr @ [c]) cs) = (tr @ [c]) @ ext" "prefix ext cs" by blast
    with None have "snd (cut e tr (c # cs)) = tr @ (c # ext) \<and> prefix (c # ext) (c # cs)"
      by simp
    then show ?thesis by blast
  next
    case (Some n)
    then have "snd (cut e tr (c # cs)) = tr @ [c] \<and> prefix [c] (c # cs)" by simp
    then show ?thesis by blast
  qed
qed



lemma run_ext:
  assumes "regular m" and "m e tr = (r, tr')"
  shows "\<exists>ext. tr' = tr @ ext \<and> prefix ext (events_of m e)
           \<and> (\<forall>v. r = Inr v \<longrightarrow> ext = events_of m e \<and> outcome_of m e = Inr v)"
proof -
  from assms have rp: "replay e tr (outcome_of m e) (events_of m e) = (r, tr')"
    by (simp add: regular_run)
  obtain o1 tr1 where c: "cut e tr (events_of m e) = (o1, tr1)" by (cases "cut e tr (events_of m e)")
  from cut_prefix [of e tr "events_of m e"] c obtain ext where
    ext: "tr1 = tr @ ext" "prefix ext (events_of m e)" by auto
  show ?thesis
  proof (cases o1)
    case None
    with c rp have "r = outcome_of m e" "tr' = tr1" by (simp_all add: replay_def)
    moreover from None c have "tr1 = tr @ events_of m e" by (simp add: cut_None)
    ultimately show ?thesis by auto
  next
    case (Some x)
    with c rp have "r = Inl x" "tr' = tr1" by (simp_all add: replay_def)
    with ext show ?thesis by auto
  qed
qed



subsection \<open>The network\<close>

text \<open>
  C5. \<open>Net\<close> has six layers: two convolutions, two dropouts and two linear layers, and
  \<open>forward\<close> applies to its input, in this order, conv1, relu, conv2, relu, max-pool,
  dropout1, flatten, fc1, relu, dropout2, fc2 and log-softmax, each layer being the one
  \<open>__init__\<close> stored under that name.
\<close>

theorem Net_layers_and_forward_order:
  "length Net_init = 6
   \<and> length (filter is_conv (map snd Net_init)) = 2
   \<and> length (filter is_dropout (map snd Net_init)) = 2
   \<and> length (filter is_linear (map snd Net_init)) = 2
   \<and> forward x = Inr (x @
        [Module ''conv1'' (Conv2d 1 32 3 1), Relu,
         Module ''conv2'' (Conv2d 32 64 3 1), Relu,
         MaxPool2d 2,
         Module ''dropout1'' (Dropout (25, -2)),
         Flatten 1,
         Module ''fc1'' (Linear 9216 128), Relu,
         Module ''dropout2'' (Dropout (5, -1)),
         Module ''fc2'' (Linear 128 10),
         LogSoftmax 1])"
  by (simp add: Net_init_def forward_def submodule_def functional_def)

lemmas quiet_simps = events_of_thn outcome_of_thn events_of_bnd outcome_of_bnd
  regular_thn regular_bnd regular_only_if regular_asks

lemma events_of_get_rank [simp]: "events_of get_rank e = [GetRank]"
  and outcome_of_get_rank [simp]: "outcome_of get_rank e = Inr (rank e)"
  and events_of_get_world_size [simp]: "events_of get_world_size e = [GetWorldSize]"
  and outcome_of_get_world_size [simp]: "outcome_of get_world_size e = Inr (world_size e)"
  by (simp_all add: get_rank_def get_world_size_def quiet_simps)

lemma events_of_train_iteration:
  "events_of (train_iteration args model device train_loader optimizer epoch batch_idx data) e =
     [TensorTo device, TensorTo device] @ iteration_calls e model optimizer @ [GetRank]
     @ (if rank e = 0 \<and> log_interval args \<noteq> 0 \<and> batch_idx mod log_interval args = 0
        then [GetWorldSize, Item,
              Print (TrainProgress epoch (world_size e * batch_idx * int data)
                (dataset_len train_loader) batch_idx (length (batches train_loader)))]
        else [])"
  by (simp add: train_iteration_def iteration_calls_def quiet_simps only_if_def)

lemma outcome_of_train_iteration:
  "outcome_of (train_iteration args model device train_loader optimizer epoch batch_idx data) e =
     (if rank e = 0 \<and> log_interval args = 0 then Inl ZeroDivisionError else Inr ())"
  by (simp add: train_iteration_def quiet_simps only_if_def)

lemma follows_exact: "follows m e (events_of m e)"
  by (simp add: follows_def split: sum.splits)

lemma thn_ret [simp]: "thn m (ret ()) = m"
  by (rule ext, rule ext) (simp add: thn_def bnd_def ret_def split: prod.splits sum.splits)

lemma follows_call [simp]: "follows (call c) e [c]"
  and follows_calls [simp]: "follows (calls cs) e cs"
  and follows_ret [simp]: "follows (ret v) e []"
  by (simp_all add: follows_def)

lemma follows_thn:
  "follows m e p1 \<Longrightarrow> regular n \<Longrightarrow> follows n e p2 \<Longrightarrow> follows (thn m n) e (p1 @ p2)"
  by (auto simp: follows_def events_of_thn outcome_of_thn split: sum.splits)

lemma follows_bnd:
  "follows m e p1 \<Longrightarrow> (\<And>v. regular (f v)) \<Longrightarrow> (\<And>v. outcome_of m e = Inr v \<Longrightarrow> follows (f v) e p2)
     \<Longrightarrow> follows (bnd m f) e (p1 @ p2)"
  by (auto simp: follows_def events_of_bnd outcome_of_bnd split: sum.splits)

lemma follows_train_loop:
  "follows (train_loop args model device train_loader optimizer epoch batch_idx bs) e
     (train_loop_plan args model device train_loader optimizer epoch batch_idx bs e)"
proof (induction bs arbitrary: batch_idx)
  case Nil
  show ?case by (simp add: follows_def train_loop_plan_def processed_def)
next
  case (Cons data rest)
  let ?it = "train_iteration args model device train_loader optimizer epoch batch_idx data"
  show ?case
  proof (cases "dry_run args")
    case True
    then show ?thesis
      by (simp add: follows_def train_loop_plan_def processed_def quiet_simps split: sum.splits)
  next
    case False
    have "follows (thn (call LoaderNext) (thn ?it
            (train_loop args model device train_loader optimizer epoch (batch_idx + 1) rest))) e
          ([LoaderNext] @ events_of ?it e
            @ train_loop_plan args model device train_loader optimizer epoch (batch_idx + 1) rest e)"
      by (intro follows_thn follows_exact Cons.IH regular_thn) simp_all
    moreover have "train_loop args model device train_loader optimizer epoch batch_idx (data # rest)
        = thn (call LoaderNext) (thn ?it
            (thn (train_loop args model device train_loader optimizer epoch (batch_idx + 1) rest) (ret ())))"
      using False by simp
    ultimately show ?thesis
      using False
      by (simp add: follows_def train_loop_plan_def processed_def quiet_simps split: sum.splits)
  qed
qed

lemma follows_train:
  "follows (train args model device train_loader optimizer epoch) e
     (ModelTrain model # LoaderIter #
        train_loop_plan args model device train_loader optimizer epoch 0 (batches train_loader) e)"
proof -
  have "follows (thn (call (ModelTrain model)) (thn (call LoaderIter)
          (train_loop args model device train_loader optimizer epoch 0 (batches train_loader)))) e
        ([ModelTrain model] @ [LoaderIter] @
          train_loop_plan args model device train_loader optimizer epoch 0 (batches train_loader) e)"
    by (intro follows_thn follows_exact follows_train_loop regular_thn) simp_all
  then show ?thesis
    by (simp add: train_def follows_def quiet_simps split: sum.splits)
qed

lemma run_follows:
  assumes "regular m" and "follows m e plan" and "m e tr = (r, tr')"
  shows "\<exists>ext. tr' = tr @ ext \<and> prefix ext plan \<and> (\<forall>v. r = Inr v \<longrightarrow> ext = plan)"
proof -
  from run_ext [OF assms(1,3)] obtain ext where
    ext: "tr' = tr @ ext" "prefix ext (events_of m e)"
      "\<forall>v. r = Inr v \<longrightarrow> ext = events_of m e \<and> outcome_of m e = Inr v"
    by blast
  from ext(2) assms(2) have "prefix ext plan"
    by (auto simp: follows_def)
  moreover have "ext = plan" if "r = Inr v" for v
    using that ext(3) assms(2) by (auto simp: follows_def)
  ultimately show ?thesis using ext(1) by blast
qed

lemma filter_iteration_calls [simp]:
  "filter is_iteration_call (iteration_calls e model optimizer) = iteration_calls e model optimizer"
  "filter is_loop_call (iteration_calls e model optimizer) = iteration_calls e model optimizer"
  by (simp_all add: iteration_calls_def is_loop_call_def)

lemma filter_train_iteration:
  "filter is_iteration_call
     (events_of (train_iteration args model device train_loader optimizer epoch batch_idx data) e)
   = iteration_calls e model optimizer"
  "filter is_loop_call
     (events_of (train_iteration args model device train_loader optimizer epoch batch_idx data) e)
   = iteration_calls e model optimizer"
  by (simp_all add: events_of_train_iteration) (simp_all add: is_loop_call_def)

lemma filter_iterations:
  "filter is_loop_call (concat (map (\<lambda>(i, data). LoaderNext #
       events_of (train_iteration args model device train_loader optimizer epoch i data) e)
     (py_enumerate batch_idx bs)))
   = concat (replicate (length bs) (LoaderNext # iteration_calls e model optimizer))"
  "filter is_iteration_call (concat (map (\<lambda>(i, data). LoaderNext #
       events_of (train_iteration args model device train_loader optimizer epoch i data) e)
     (py_enumerate batch_idx bs)))
   = concat (replicate (length bs) (iteration_calls e model optimizer))"
  by (induction bs arbitrary: batch_idx) (simp_all add: filter_train_iteration, simp_all add: is_loop_call_def)

lemma filter_train_loop_plan:
  "filter is_loop_call (train_loop_plan args model device train_loader optimizer epoch batch_idx bs e)
   = concat (replicate (length (processed args bs)) (LoaderNext # iteration_calls e model optimizer))
     @ (if dry_run args \<and> bs \<noteq> [] then [] else [LoaderNext])"
  "filter is_iteration_call (train_loop_plan args model device train_loader optimizer epoch batch_idx bs e)
   = concat (replicate (length (processed args bs)) (iteration_calls e model optimizer))"
  by (simp_all add: train_loop_plan_def filter_iterations) (simp_all add: is_loop_call_def)

lemma processed_bound:
  "prefix (concat (replicate (length (processed args bs)) c) @ (if dry_run args \<and> bs \<noteq> [] then [] else t))
     (concat (replicate (length bs) c) @ t)"
proof (cases "dry_run args \<and> bs \<noteq> []")
  case True
  then obtain b rest where "bs = b # rest" by (cases bs) auto
  with True show ?thesis by (simp add: processed_def)
next
  case False
  then show ?thesis by (cases bs) (auto simp: processed_def)
qed

subsection \<open>The training pass\<close>

text \<open>
  C2. In a training pass, the calls that fetch a batch and work on it come batch after
  batch in the order: fetch, \<open>optimizer.zero_grad\<close>, forward pass, loss, \<open>loss.backward\<close>,
  then \<open>optimizer.all_reduce_grads\<close> exactly when the optimizer has that attribute, then
  \<open>optimizer.step\<close>. Whatever calls raise, the pass never leaves this order; a pass that
  returns has done it once for every batch it processed (all of them, or the first one
  under \<open>--dry-run\<close>), with one last fetch that finds the loader exhausted unless the
  loop was left by \<open>break\<close>.
\<close>

theorem train_iteration_order:
  assumes "train args model device train_loader optimizer epoch e tr = (r, tr')"
  shows "prefix (filter is_loop_call (drop (length tr) tr'))
           (concat (replicate (length (batches train_loader))
              (LoaderNext # iteration_calls e model optimizer)) @ [LoaderNext])
         \<and> (r = Inr () \<longrightarrow>
              filter is_loop_call (drop (length tr) tr') =
                concat (replicate (length (processed args (batches train_loader)))
                  (LoaderNext # iteration_calls e model optimizer))
                @ (if dry_run args \<and> batches train_loader \<noteq> [] then [] else [LoaderNext]))"
proof -
  let ?plan = "ModelTrain model # LoaderIter #
      train_loop_plan args model device train_loader optimizer epoch 0 (batches train_loader) e"
  from run_follows [OF regular_train follows_train assms] obtain ext where
    ext: "tr' = tr @ ext" "prefix ext ?plan" "\<forall>v. r = Inr v \<longrightarrow> ext = ?plan"
    by blast
  have f: "filter is_loop_call ?plan =
      concat (replicate (length (processed args (batches train_loader)))
        (LoaderNext # iteration_calls e model optimizer))
      @ (if dry_run args \<and> batches train_loader \<noteq> [] then [] else [LoaderNext])"
    by (simp add: filter_train_loop_plan) (simp add: is_loop_call_def)
  from ext(2) have "prefix (filter is_loop_call ext) (filter is_loop_call ?plan)"
    by (rule filter_mono_prefix)
  then have "prefix (filter is_loop_call ext)
      (concat (replicate (length (batches train_loader))
         (LoaderNext # iteration_calls e model optimizer)) @ [LoaderNext])"
    unfolding f using processed_bound prefix_order.order_trans by blast
  moreover have "filter is_loop_call ext = filter is_loop_call ?plan" if "r = Inr ()"
    using that ext(3) by simp
  ultimately show ?thesis
    using ext(1) f by simp
qed

lemma events_of_test_loop:
  "events_of (test_loop model device bs) e =
     concat (replicate (length bs) (test_batch_calls model device)) @ [LoaderNext]"
  and outcome_of_test_loop: "outcome_of (test_loop model device bs) e = Inr ()"
  by (induction bs) (simp_all add: quiet_simps test_batch_calls_def)

lemma follows_test: "follows (test model device test_loader) e (test_plan model device test_loader)"
  by (simp add: test_def test_plan_def follows_def quiet_simps events_of_test_loop
      outcome_of_test_loop)

lemma follows_train_plan:
  "follows (train args model device train_loader optimizer epoch) e
     (train_plan args model device train_loader optimizer epoch e)"
  unfolding train_plan_def by (rule follows_train)

lemma follows_epoch_loop:
  "follows (epoch_loop args (DistributedDataParallel inner ids out) device optimizer es) e
     (concat (map (epoch_plan args (DistributedDataParallel inner ids out) inner device optimizer e) es))"
proof (induction es)
  case Nil
  show ?case by simp
next
  case (Cons epoch rest)
  let ?model = "DistributedDataParallel inner ids out"
  let ?train = "bnd (asks (\<lambda>e. \<lparr>batches = train_batches e epoch, dataset_len = train_dataset_len e\<rparr>))
         (\<lambda>train_loader. train args ?model device train_loader optimizer epoch)"
  let ?test = "bnd get_rank (\<lambda>r.
         only_if (r = 0)
           (bnd (module_of ?model) (\<lambda>m.
            bnd (asks (\<lambda>e. \<lparr>batches = test_batches e, dataset_len = test_dataset_len e\<rparr>))
              (\<lambda>test_loader. test m device test_loader))))"
  have tr: "follows ?train e (train_plan args ?model device (train_loader_of e epoch) optimizer epoch e)"
    using follows_train_plan [of args ?model device "train_loader_of e epoch" optimizer epoch e]
    by (simp add: follows_def quiet_simps train_loader_of_def split: sum.splits)
  have te: "follows ?test e
      (GetRank # (if rank e = 0 then test_plan inner device (test_loader_of e) else []))"
    using follows_test [of inner device "test_loader_of e" e]
    by (simp add: follows_def quiet_simps test_loader_of_def only_if_def split: sum.splits)
  have rt: "regular ?train" "regular ?test"
    by (auto intro!: regular_bnd regular_only_if regular_asks)
  have "follows (thn (call (SetEpoch epoch)) (thn ?train (thn ?test (thn (call SchedulerStep)
          (epoch_loop args ?model device optimizer rest))))) e
        ([SetEpoch epoch] @ train_plan args ?model device (train_loader_of e epoch) optimizer epoch e
          @ (GetRank # (if rank e = 0 then test_plan inner device (test_loader_of e) else []))
          @ [SchedulerStep]
          @ concat (map (epoch_plan args ?model inner device optimizer e) rest))"
    using rt by (intro follows_thn tr te Cons.IH regular_thn) simp_all
  moreover have "epoch_loop args ?model device optimizer (epoch # rest) =
      thn (call (SetEpoch epoch)) (thn ?train (thn ?test (thn (call SchedulerStep)
          (epoch_loop args ?model device optimizer rest))))"
    by simp
  moreover have "epoch_plan args ?model inner device optimizer e epoch =
      [SetEpoch epoch] @ train_plan args ?model device (train_loader_of e epoch) optimizer epoch e
        @ (GetRank # (if rank e = 0 then test_plan inner device (test_loader_of e) else []))
        @ [SchedulerStep]"
    by (simp add: epoch_plan_def)
  ultimately show ?case
    by simp
qed

lemmas run_defs = thn_def bnd_def call_def ret_def asks_def raise_exn_def only_if_def calls_def
  get_rank_def get_world_size_def

lemma example_train_run:
  "fst (train example_args example_model Cuda example_loader example_optimizer 1 example_env [])
     = Inr ()"
  by (simp add: train_def train_iteration_def run_defs example_args_def example_env_def example_loader_def)

theorem train_iteration_order_witness:
  "fst (train example_args example_model Cuda example_loader example_optimizer 1 example_env [])
     = Inr ()
   \<and> filter is_loop_call
       (snd (train example_args example_model Cuda example_loader example_optimizer 1 example_env []))
     = [LoaderNext, ZeroGrad example_optimizer, Forward example_model, NllLoss ''mean'', Backward,
        OptimizerStep example_optimizer,
        LoaderNext, ZeroGrad example_optimizer, Forward example_model, NllLoss ''mean'', Backward,
        OptimizerStep example_optimizer,
        LoaderNext]"
proof -
  have run: "train example_args example_model Cuda example_loader example_optimizer 1 example_env []
      = (Inr (), snd (train example_args example_model Cuda example_loader example_optimizer 1
           example_env []))"
    using example_train_run by (metis prod.collapse)
  have "has_all_reduce_grads example_env example_optimizer = False"
    by (simp add: example_env_def example_optimizer_def)
  with train_iteration_order [OF run] example_train_run show ?thesis
    by (simp add: processed_def example_args_def example_loader_def iteration_calls_def)
qed

lemma cut_no_raise: "(\<And>tr c. raises e tr c = None) \<Longrightarrow> cut e tr cs = (None, tr @ cs)"
  by (induction cs arbitrary: tr) simp_all

lemma run_no_raise:
  "regular m \<Longrightarrow> (\<And>tr c. raises e tr c = None)
     \<Longrightarrow> m e tr = (outcome_of m e, tr @ events_of m e)"
  by (simp add: regular_run replay_def cut_no_raise)

lemma outcome_of_train_loop:
  "outcome_of (train_loop args model device train_loader optimizer epoch batch_idx bs) e =
     (if bs \<noteq> [] \<and> rank e = 0 \<and> log_interval args = 0 then Inl ZeroDivisionError else Inr ())"
  by (induction bs arbitrary: batch_idx)
     (simp_all add: quiet_simps outcome_of_train_iteration)

lemma outcome_of_train:
  "outcome_of (train args model device train_loader optimizer epoch) e =
     (if batches train_loader \<noteq> [] \<and> rank e = 0 \<and> log_interval args = 0
      then Inl ZeroDivisionError else Inr ())"
  by (simp add: train_def quiet_simps outcome_of_train_loop)





subsection \<open>Exceptions\<close>




lemma regular_case_prod: "(\<And>a b. regular (f a b)) \<Longrightarrow> regular (case p of (a, b) \<Rightarrow> f a b)"
  by (cases p) simp

lemma regular_case_option:
  "regular n \<Longrightarrow> (\<And>x. regular (s x)) \<Longrightarrow> regular (case v of None \<Rightarrow> n | Some x \<Rightarrow> s x)"
  by (cases v) simp_all

lemma regular_if: "regular a \<Longrightarrow> regular b \<Longrightarrow> regular (if c then a else b)"
  by simp

lemmas regular_cases = regular_case_prod regular_case_option regular_if

lemma events_of_parse_arguments [simp]:
  "events_of parse_arguments e = ArgumentParser # map AddArgument parser_arguments @ [ParseArgs]"
  and outcome_of_parse_arguments [simp]: "outcome_of parse_arguments e = Inr ()"
  by (simp_all add: parse_arguments_def quiet_simps)

lemma events_of_use_cuda_of [simp]:
  "events_of (use_cuda_of args) e = (if no_cuda args then [] else [CudaIsAvailable])"
  and outcome_of_use_cuda_of [simp]:
  "outcome_of (use_cuda_of args) e = Inr (\<not> no_cuda args \<and> cuda_available e)"
  by (simp_all add: use_cuda_of_def quiet_simps)

lemma events_of_load_datasets [simp]: "events_of (load_datasets args) e = datasets_plan args"
  and outcome_of_load_datasets [simp]:
  "outcome_of (load_datasets args) e =
     (case local_rank args of
        None \<Rightarrow> Inl TypeError
      | Some r \<Rightarrow> if r < 0 then Inl UnboundLocalError else Inr (r, MNIST_train))"
  by (auto simp: load_datasets_def datasets_plan_def quiet_simps regular_cases split: option.splits)

lemma outcome_of_build_loaders_and_model [simp]:
  "outcome_of (build_loaders_and_model args use_cuda device dataset1) e = Inr ()"
  by (simp add: build_loaders_and_model_def Let_def)

lemma events_of_initialize_msamp [simp]:
  "events_of (initialize_msamp args (Net (device_of args e)) (plain_optimizer args e)) e
     = msamp_plan args e"
  and outcome_of_initialize_msamp [simp]:
  "outcome_of (initialize_msamp args (Net (device_of args e)) (plain_optimizer args e)) e
     = Inr (model_of args e, optimizer_of args e)"
  by (simp_all add: initialize_msamp_def msamp_plan_def model_of_def optimizer_of_def quiet_simps)

lemma events_of_save_checkpoint [simp]:
  "events_of (save_checkpoint args (ddp_of args e r)) e = save_plan args e r"
  and outcome_of_save_checkpoint [simp]:
  "outcome_of (save_checkpoint args model) e = Inr ()"
  by (simp_all add: save_checkpoint_def save_plan_def only_if_def quiet_simps)

lemma follows_epochs:
  "follows (epoch_loop args (ddp_of args e r) (device_of args e) (optimizer_of args e)
     [1..epochs args]) e (epochs_plan args e r)"
  unfolding ddp_of_def epochs_plan_def by (rule follows_epoch_loop)

lemma regular_main_tail [simp]: "regular (main_tail args e r)"
  by (simp add: main_tail_def regular_thn)

lemma device_fold: "(if \<not> no_cuda args \<and> cuda_available e then Cuda else Cpu) = device_of args e"
  by (simp add: device_of_def)

lemma optimizer_fold: "AdamW (Net (device_of args e)) (lr args) = plain_optimizer args e"
  by (simp add: plain_optimizer_def)

lemma ddp_fold: "DistributedDataParallel (model_of args e) [r] r = ddp_of args e r"
  by (simp add: ddp_of_def)

lemma quiet_main:
  "events_of (main args) e =
     setup_plan args e @ datasets_plan args
     @ (case local_rank args of
          None \<Rightarrow> []
        | Some r \<Rightarrow>
            if r < 0 then []
            else events_of (build_loaders_and_model args (\<not> no_cuda args \<and> cuda_available e)
                   (device_of args e) MNIST_train) e
              @ msamp_plan args e
              @ [DDPInit (model_of args e) [r] r, StepLRInit (optimizer_of args e) 1 (gamma args)]
              @ events_of (main_tail args e r) e)"
  "outcome_of (main args) e =
     (case local_rank args of
        None \<Rightarrow> Inl TypeError
      | Some r \<Rightarrow> if r < 0 then Inl UnboundLocalError else outcome_of (main_tail args e r) e)"
  by (simp_all add: main_def setup_plan_def main_tail_def quiet_simps regular_cases
      device_fold optimizer_fold ddp_fold split: option.splits)

lemma follows_main_tail:
  "follows (main_tail args e r) e (epochs_plan args e r @ save_plan args e r)"
  unfolding main_tail_def
  by (intro follows_thn follows_epochs) (simp_all add: follows_def)

lemma follows_main: "follows (main args) e (main_plan args e)"
proof (cases "local_rank args")
  case None
  then show ?thesis
    by (simp add: follows_def quiet_main main_plan_def)
next
  case (Some r)
  show ?thesis
  proof (cases "r < 0")
    case True
    with Some show ?thesis
      by (simp add: follows_def quiet_main main_plan_def)
  next
    case False
    with Some follows_main_tail [of args e r] show ?thesis
      by (simp add: follows_def quiet_main main_plan_def split: sum.splits)
  qed
qed

lemma run_main:
  assumes "main args e [] = (r, tr)"
  shows "prefix tr (main_plan args e)" and "r = Inr () \<Longrightarrow> tr = main_plan args e"
  using run_follows [OF regular_main follows_main assms] by auto


lemma list_all_concat_replicate: "list_all P xs \<Longrightarrow> list_all P (concat (replicate n xs))"
  by (induction n) simp_all

lemma list_all_train_plan:
  assumes "\<And>i data. list_all P
      (events_of (train_iteration args model device train_loader optimizer epoch i data) e)"
    and "P LoaderNext" and "P LoaderIter" and "P (ModelTrain model)"
  shows "list_all P (train_plan args model device train_loader optimizer epoch e)"
  using assms by (auto simp: train_plan_def train_loop_plan_def list_all_iff)

lemma list_all_test_plan:
  assumes "list_all P (test_batch_calls model device)"
    and "P (ModelEval model)" and "P NoGrad" and "P LoaderIter" and "P LoaderNext"
    and "P (Print (TestSummary (dataset_len test_loader)))"
  shows "list_all P (test_plan model device test_loader)"
  using assms by (simp add: test_plan_def list_all_concat_replicate)



lemma events_of_build_loaders_and_model:
  "events_of (build_loaders_and_model args use_cuda device dataset1) e =
     [NewDistributedSampler dataset1 True,
      NewSequentialSampler MNIST_test,
      NewDataLoader dataset1 (DistributedSampler dataset1 True) (Some False)
        ((''batch_size'', KInt (batch_size args)) #
          (if use_cuda then [(''num_workers'', KInt 1), (''pin_memory'', KBool True)] else [])),
      NewDataLoader MNIST_test (SequentialSampler MNIST_test) None
        ((''batch_size'', KInt (test_batch_size args)) #
          (if use_cuda then [(''num_workers'', KInt 1), (''pin_memory'', KBool True)] else [])),
      NetInit,
      ModuleTo device,
      Parameters (Net device),
      AdamWInit (Net device) (lr args)]"
  by (simp add: build_loaders_and_model_def Let_def)


lemma filter_concat_Nil: "(\<And>xs. xs \<in> set xss \<Longrightarrow> filter P xs = []) \<Longrightarrow> filter P (concat xss) = []"
  by (induction xss) simp_all






lemma outcome_of_test:
  "outcome_of (test model device test_loader) e =
     (if dataset_len test_loader = 0 then Inl ZeroDivisionError else Inr ())"
  by (simp add: test_def quiet_simps outcome_of_test_loop)

lemma epoch_loop_returns:
  assumes "rank e \<noteq> 0 \<or> log_interval args \<noteq> 0 \<and> test_dataset_len e \<noteq> 0"
  shows "outcome_of (epoch_loop args (DistributedDataParallel inner ids out) device optimizer es) e
     = Inr ()"
  using assms
  by (induction es)
     (auto simp: quiet_simps outcome_of_train outcome_of_test only_if_def)

lemma main_returns:
  assumes "local_rank args = Some k" and "0 \<le> k"
    and "rank e \<noteq> 0 \<or> log_interval args \<noteq> 0 \<and> test_dataset_len e \<noteq> 0"
    and "\<And>tr c. raises e tr c = None"
  shows "main args e [] = (Inr (), main_plan args e)"
proof -
  have o: "outcome_of (main args) e = Inr ()"
    using assms(1-3)
    by (simp add: quiet_main main_tail_def ddp_of_def quiet_simps epoch_loop_returns)
  have "main args e [] = (outcome_of (main args) e, [] @ events_of (main args) e)"
    using regular_main assms(4) by (rule run_no_raise)
  moreover from follows_main [of args e] o have "events_of (main args) e = main_plan args e"
    by (simp add: follows_def)
  ultimately show ?thesis using o by simp
qed

lemma example_main: "main example_args example_env [] = (Inr (), main_plan example_args example_env)"
  by (rule main_returns [where k = 0]) (simp_all add: example_args_def example_env_def)



lemma pass_calls:
  "list_all is_pass_call (train_plan args model device train_loader optimizer epoch e)"
  "list_all is_pass_call (test_plan model device test_loader)"
  by (rule list_all_train_plan,
      simp_all add: events_of_train_iteration iteration_calls_def,
      rule list_all_test_plan, simp_all add: test_batch_calls_def)

lemma filter_pass_Nil:
  assumes "\<And>c. is_pass_call c \<Longrightarrow> \<not> P c"
  shows "filter P (train_plan args model device train_loader optimizer epoch e) = []"
    and "filter P (test_plan model device test_loader) = []"
  using assms pass_calls(1) [of args model device train_loader optimizer epoch e]
    pass_calls(2) [of model device test_loader]
  by (auto simp: list_all_iff filter_empty_conv)

lemma filter_epochs_plan:
  assumes "\<And>c. is_pass_call c \<Longrightarrow> \<not> P c"
  shows "filter P (epochs_plan args e r) =
     concat (map (\<lambda>epoch. filter P [SetEpoch epoch, SchedulerStep]) [1..epochs args])"
proof -
  have "filter P (epoch_plan args model inner device optimizer e epoch)
      = filter P [SetEpoch epoch, SchedulerStep]" for model inner device optimizer epoch
    using assms [of GetRank] by (simp add: epoch_plan_def filter_pass_Nil [OF assms])
  then show ?thesis
    by (simp add: epochs_plan_def filter_concat comp_def)
qed

lemma length_upto_1: "length [1..n] = nat n"
  by simp

lemma concat_map_const: "concat (map (\<lambda>_. [x]) xs) = replicate (length xs) x"
  by (induction xs) simp_all

lemma concat_map_Nil: "concat (map (\<lambda>_. []) xs) = []"
  by (induction xs) simp_all

lemma prefix_snoc_last:
  assumes "prefix tr (pre @ [x])" and "x \<in> set tr" and "x \<notin> set pre"
  shows "tr = pre @ [x]"
proof -
  from assms(1) have "prefix tr pre \<or> tr = pre @ [x]"
    by auto
  moreover have "\<not> prefix tr pre"
    using assms(2,3) by (auto dest: set_mono_prefix)
  ultimately show ?thesis by simp
qed

lemma pass_not_torch_save: "is_pass_call c \<Longrightarrow> \<not> is_torch_save c"
  by (cases c) simp_all

lemma pass_not_scheduler_step: "is_pass_call c \<Longrightarrow> \<not> c = SchedulerStep"
  by (cases c) simp_all

lemma filter_torch_save_parts:
  "filter is_torch_save (setup_plan args e) = []"
  "filter is_torch_save (datasets_plan args) = []"
  "filter is_torch_save (events_of (build_loaders_and_model args use_cuda device dataset1) e) = []"
  "filter is_torch_save (msamp_plan args e) = []"
  "filter is_torch_save (epochs_plan args e r) = []"
  "filter is_torch_save (save_plan args e r) =
     (if save_model args \<and> rank e = 0 then [TorchSave ''mnist_cnn.pt''] else [])"
  by (simp_all add: setup_plan_def datasets_plan_def events_of_build_loaders_and_model
      msamp_plan_def save_plan_def filter_epochs_plan [OF pass_not_torch_save] concat_map_Nil
      comp_def split: option.splits)

lemma filter_scheduler_step_parts:
  "filter (\<lambda>c. c = SchedulerStep) (setup_plan args e) = []"
  "filter (\<lambda>c. c = SchedulerStep) (datasets_plan args) = []"
  "filter (\<lambda>c. c = SchedulerStep) (events_of (build_loaders_and_model args use_cuda device dataset1) e) = []"
  "filter (\<lambda>c. c = SchedulerStep) (msamp_plan args e) = []"
  "filter (\<lambda>c. c = SchedulerStep) (epochs_plan args e r) = replicate (nat (epochs args)) SchedulerStep"
  by (simp_all add: setup_plan_def datasets_plan_def events_of_build_loaders_and_model
      msamp_plan_def filter_epochs_plan [OF pass_not_scheduler_step] concat_map_const
      comp_def map_replicate_const split: option.splits)

lemma filter_torch_save_main_plan:
  "filter is_torch_save (main_plan args e) =
     (case local_rank args of
        None \<Rightarrow> []
      | Some k \<Rightarrow> if 0 \<le> k \<and> save_model args \<and> rank e = 0
                  then [TorchSave ''mnist_cnn.pt''] else [])"
  by (simp add: main_plan_def filter_torch_save_parts split: option.splits)

lemma main_plan_saved:
  assumes "filter is_torch_save (main_plan args e) \<noteq> []"
  shows "\<exists>pre. main_plan args e = pre @ [TorchSave ''mnist_cnn.pt'']
           \<and> filter is_torch_save pre = []
           \<and> filter (\<lambda>c. c = SchedulerStep) pre = replicate (nat (epochs args)) SchedulerStep"
proof -
  from assms obtain k where k: "local_rank args = Some k" "0 \<le> k" "save_model args" "rank e = 0"
    by (auto simp: filter_torch_save_main_plan split: option.splits if_splits)
  let ?pre = "setup_plan args e @ datasets_plan args
      @ events_of (build_loaders_and_model args (\<not> no_cuda args \<and> cuda_available e)
          (device_of args e) MNIST_train) e
      @ msamp_plan args e
      @ [DDPInit (model_of args e) [k] k, StepLRInit (optimizer_of args e) 1 (gamma args)]
      @ epochs_plan args e k @ [GetRank, StateDict (ddp_of args e k)]"
  from k have "main_plan args e = ?pre @ [TorchSave ''mnist_cnn.pt'']"
    by (simp add: main_plan_def save_plan_def)
  moreover have "filter is_torch_save ?pre = []"
    by (simp add: filter_torch_save_parts)
  moreover have "filter (\<lambda>c. c = SchedulerStep) ?pre = replicate (nat (epochs args)) SchedulerStep"
    by (simp add: filter_scheduler_step_parts)
  ultimately show ?thesis by blast
qed

text \<open>
  C6. The checkpoint is optional. \<open>torch.save\<close> is never called without \<open>--save-model\<close>
  and never on a rank other than 0; with the flag, rank 0 calls it at most once, on
  \<open>mnist_cnn.pt\<close>, and exactly once in a run that completes. When it is called it is the
  last call of the run, made after the scheduler step of each of the \<open>--epochs\<close> epochs.
\<close>

theorem checkpoint_iff_save_model:
  assumes "main args e [] = (r, tr)"
  shows "prefix (filter is_torch_save tr)
           (if save_model args \<and> rank e = 0 then [TorchSave ''mnist_cnn.pt''] else [])
     \<and> (r = Inr () \<longrightarrow> filter is_torch_save tr =
           (if save_model args \<and> rank e = 0 then [TorchSave ''mnist_cnn.pt''] else []))
     \<and> (filter is_torch_save tr \<noteq> [] \<longrightarrow>
           (\<exists>pre. tr = pre @ [TorchSave ''mnist_cnn.pt'']
              \<and> filter is_torch_save pre = []
              \<and> filter (\<lambda>c. c = SchedulerStep) pre = replicate (nat (epochs args)) SchedulerStep))"
proof (intro conjI impI)
  from assms have p: "prefix tr (main_plan args e)" by (rule run_main)
  then have fp: "prefix (filter is_torch_save tr) (filter is_torch_save (main_plan args e))"
    by (rule filter_mono_prefix)
  then show "prefix (filter is_torch_save tr)
      (if save_model args \<and> rank e = 0 then [TorchSave ''mnist_cnn.pt''] else [])"
    by (auto simp: filter_torch_save_main_plan split: option.splits if_splits)
  {
    assume "r = Inr ()"
    with assms have t: "tr = main_plan args e" by (simp add: run_main)
    from \<open>r = Inr ()\<close> have "outcome_of (main args) e = Inr ()"
      using run_ext [OF regular_main assms] by simp
    then obtain k where "local_rank args = Some k" "0 \<le> k"
      by (auto simp: quiet_main split: option.splits if_splits)
    with t show "filter is_torch_save tr =
        (if save_model args \<and> rank e = 0 then [TorchSave ''mnist_cnn.pt''] else [])"
      by (simp add: filter_torch_save_main_plan)
  }
  {
    assume n: "filter is_torch_save tr \<noteq> []"
    with fp have "filter is_torch_save (main_plan args e) \<noteq> []" by auto
    from main_plan_saved [OF this] obtain pre where pre:
      "main_plan args e = pre @ [TorchSave ''mnist_cnn.pt'']" "filter is_torch_save pre = []"
      "filter (\<lambda>c. c = SchedulerStep) pre = replicate (nat (epochs args)) SchedulerStep"
      by blast
    from n obtain c where c: "c \<in> set tr" "is_torch_save c"
      by (auto simp: filter_empty_conv)
    with p pre(1) have "c \<in> set (pre @ [TorchSave ''mnist_cnn.pt''])"
      by (auto dest: set_mono_prefix)
    with c(2) pre(2) have "c = TorchSave ''mnist_cnn.pt''"
      by (auto simp: filter_empty_conv)
    with c(1) have "TorchSave ''mnist_cnn.pt'' \<in> set tr" by simp
    moreover from pre(2) have "TorchSave ''mnist_cnn.pt'' \<notin> set pre"
      by (auto simp: filter_empty_conv)
    ultimately have "tr = pre @ [TorchSave ''mnist_cnn.pt'']"
      using p pre(1) by (intro prefix_snoc_last) simp_all
    with pre show "\<exists>pre. tr = pre @ [TorchSave ''mnist_cnn.pt'']
        \<and> filter is_torch_save pre = []
        \<and> filter (\<lambda>c. c = SchedulerStep) pre = replicate (nat (epochs args)) SchedulerStep"
      by blast
  }
qed

theorem checkpoint_iff_save_model_witness:
  "save_model example_args \<and> rank example_env = 0
   \<and> fst (main example_args example_env []) = Inr ()
   \<and> filter is_torch_save (snd (main example_args example_env [])) = [TorchSave ''mnist_cnn.pt'']"
proof -
  have "save_model example_args" "rank example_env = 0"
    by (simp_all add: example_args_def example_env_def)
  with checkpoint_iff_save_model [OF example_main] show ?thesis
    by (simp add: example_main)
qed

end
